theory Spec2Isabelle
  imports Main
begin

section \<open>The per-CPU control block\<close>

text \<open>
  The fields of \<open>struct per_cpu\<close> that \<open>hypervisor/arch/x86/control.c\<close> reads and writes.
  \<open>sipi_vector\<close> is a C \<open>int\<close>; the code only copies it and compares it with \<open>0\<close>, so it
  is an \<open>int\<close> here and every theorem holds for each value. The spec calls
  \<open>flush_vcpu_caches\<close> \<open>flush_cache_pending\<close>.
\<close>

record per_cpu =
  suspend_cpu :: bool
  cpu_suspended :: bool
  shutdown_cpu :: bool
  init_signaled :: bool
  wait_for_sipi :: bool
  sipi_vector :: int
  failed :: bool
  flush_vcpu_caches :: bool

datatype x86_init_sipi = X86_INIT | X86_SIPI

text \<open>
  Calls that leave \<open>control.c\<close>: the local-APIC driver, the virtualization-extension layer,
  the IOMMU, PCI and IOAPIC subsystems. Cells and memory regions are passed by address;
  \<open>None\<close> is the null pointer.
\<close>

datatype call =
    Apic_send_nmi_ipi
  | Apic_clear
  | Vcpu_exit
  | Vcpu_park
  | Vcpu_tlb_flush
  | Vcpu_cell_init nat
  | Iommu_cell_init nat
  | Pci_cell_init nat
  | Ioapic_cell_init nat
  | Vcpu_cell_exit nat
  | Iommu_cell_exit nat
  | Pci_cell_exit nat
  | Ioapic_cell_exit nat
  | Vcpu_map_memory_region nat nat
  | Iommu_map_memory_region nat nat
  | Vcpu_unmap_memory_region nat nat
  | Iommu_unmap_memory_region nat nat
  | Iommu_config_commit "nat option"
  | Pci_config_commit "nat option"
  | Ioapic_config_commit "nat option"

section \<open>Other cores\<close>

text \<open>
  A core that waits in a loop without holding \<open>control_lock\<close> sees what the other cores
  write in the meantime. The environment is a list of state changes; one of them happens
  before each read the waiting core makes outside the lock, and when the list is used up
  nothing else changes the block. A section between \<open>spin_lock\<close> and \<open>spin_unlock\<close> is one
  step. The writes that \<open>arch_resume_cpu\<close>, \<open>arch_reset_cpu\<close>, \<open>arch_park_cpu\<close> and
  \<open>arch_shutdown_cpu\<close> make without the lock are taken to fall into a wait of the target
  or between two of its calls, where their callers place them by suspending the target
  first. \<open>spin_while c\<close> is \<open>while (c) cpu_relax();\<close>: \<open>None\<close> when the loop never ends.
\<close>

type_synonym env = "(per_cpu \<Rightarrow> per_cpu) list"

fun spin_while :: "(per_cpu \<Rightarrow> bool) \<Rightarrow> env \<Rightarrow> per_cpu \<Rightarrow> (per_cpu \<times> env) option" where
  "spin_while c [] t = (if c t then None else Some (t, []))"
| "spin_while c (e # es) t = (let t' = e t in if c t' then spin_while c es t' else Some (t', es))"

fun interfere :: "env \<Rightarrow> per_cpu \<Rightarrow> per_cpu \<times> env" where
  "interfere [] t = (t, [])"
| "interfere (e # es) t = (e t, es)"

section \<open>Remote operations on a target core\<close>

text \<open>
  Each function of the source takes \<open>cpu_id\<close> and works on \<open>per_cpu(cpu_id)\<close>; the model takes
  that block. \<open>suspend_request\<close> is the section of \<open>arch_suspend_cpu\<close> under the lock
  (lines 133 to 138). \<open>arch_suspend_cpu\<close> returns the calls it made and, when its wait
  ends, the block and the rest of the environment. \<open>memory_barrier()\<close> in \<open>arch_resume_cpu\<close> orders
  the writes of the caller and changes no field. \<open>arch_shutdown_cpu\<close> runs beside the other
  cores to its end: they act once more between its write of \<open>shutdown_cpu\<close> (line 173)
  and the write of \<open>suspend_cpu\<close> in \<open>arch_resume_cpu\<close> (line 174), so that the order of
  the two writes shows in what the other cores find.
\<close>

definition suspend_request :: "per_cpu \<Rightarrow> per_cpu \<times> bool" where
  "suspend_request target_data =
     (let t = target_data\<lparr>suspend_cpu := True\<rparr>; target_suspended = cpu_suspended t
      in (t, target_suspended))"

definition arch_suspend_cpu :: "env \<Rightarrow> per_cpu \<Rightarrow> call list \<times> (per_cpu \<times> env) option" where
  "arch_suspend_cpu env target_data =
     (case suspend_request target_data of (t, target_suspended) \<Rightarrow>
        if \<not> target_suspended
        then ([Apic_send_nmi_ipi], spin_while (\<lambda>d. \<not> cpu_suspended d) env t)
        else ([], Some (t, env)))"

definition arch_resume_cpu :: "per_cpu \<Rightarrow> per_cpu" where
  "arch_resume_cpu d = d\<lparr>suspend_cpu := False\<rparr>"

definition arch_reset_cpu :: "int \<Rightarrow> per_cpu \<Rightarrow> per_cpu" where
  "arch_reset_cpu APIC_BSP_PSEUDO_SIPI d = arch_resume_cpu (d\<lparr>sipi_vector := APIC_BSP_PSEUDO_SIPI\<rparr>)"

definition arch_park_cpu :: "per_cpu \<Rightarrow> per_cpu" where
  "arch_park_cpu d = arch_resume_cpu (d\<lparr>init_signaled := True\<rparr>)"

definition arch_shutdown_cpu :: "env \<Rightarrow> per_cpu \<Rightarrow> call list \<times> (per_cpu \<times> env) option" where
  "arch_shutdown_cpu env d =
     (case arch_suspend_cpu env d of
        (cs, None) \<Rightarrow> (cs, None)
      | (cs, Some (d1, env1)) \<Rightarrow>
          (case interfere env1 (d1\<lparr>shutdown_cpu := True\<rparr>) of
             (d2, env2) \<Rightarrow> (cs, Some (arch_resume_cpu d2, env2))))"

definition x86_send_init_sipi :: "x86_init_sipi \<Rightarrow> int \<Rightarrow> per_cpu \<Rightarrow> per_cpu \<times> call list" where
  "x86_send_init_sipi type vec target_data =
     (let (t, send_nmi) =
            (if type = X86_INIT
             then (if \<not> wait_for_sipi target_data
                   then (target_data\<lparr>init_signaled := True\<rparr>, True)
                   else (target_data, False))
             else if wait_for_sipi target_data
                  then (target_data\<lparr>sipi_vector := vec\<rparr>, True)
                  else (target_data, False))
      in (t, if send_nmi then [Apic_send_nmi_ipi] else []))"

section \<open>The event loop of the owning core\<close>

definition x86_enter_wait_for_sipi :: "per_cpu \<Rightarrow> per_cpu" where
  "x86_enter_wait_for_sipi cpu_data = cpu_data\<lparr>init_signaled := False, wait_for_sipi := True\<rparr>"

text \<open>
  Lines 221 to 234 of \<open>x86_handle_events\<close>: publish \<open>cpu_suspended\<close>, release the lock, wait
  while \<open>suspend_cpu\<close>, read \<open>shutdown_cpu\<close>, take the lock again. Other cores act before each
  of the reads and before the lock is taken.
\<close>

datatype waited = Woken per_cpu env | Shut_down per_cpu | Stuck

definition he_wait :: "env \<Rightarrow> per_cpu \<Rightarrow> waited" where
  "he_wait env cpu_data =
     (case spin_while suspend_cpu env (cpu_data\<lparr>cpu_suspended := True\<rparr>) of
        None \<Rightarrow> Stuck
      | Some (d1, env1) \<Rightarrow>
          (case interfere env1 d1 of (d2, env2) \<Rightarrow>
             if shutdown_cpu d2 then Shut_down d2
             else (case interfere env2 d2 of (d3, env3) \<Rightarrow> Woken d3 env3)))"

text \<open>
  Lines 236 to 244, under the lock: clear \<open>cpu_suspended\<close> and take a pending startup
  vector. The second component is the local variable \<open>sipi_vector\<close>.
\<close>

definition he_wakeup :: "per_cpu \<Rightarrow> int \<Rightarrow> per_cpu \<times> int" where
  "he_wakeup cpu_data sipi_vec =
     (let d = cpu_data\<lparr>cpu_suspended := False\<rparr>
      in if 0 \<le> sipi_vector d
         then (let (d', v) = (if \<not> failed d then (d\<lparr>wait_for_sipi := False\<rparr>, sipi_vector d)
                              else (d, sipi_vec))
               in (d'\<lparr>sipi_vector := -1\<rparr>, v))
         else (d, sipi_vec))"

text \<open>One pass through the body of the \<open>do ... while\<close> loop, lines 215 to 244.\<close>

datatype pass = Break per_cpu int env | Next per_cpu int env | Halt per_cpu | Wait_forever

definition he_pass :: "env \<Rightarrow> per_cpu \<Rightarrow> int \<Rightarrow> pass" where
  "he_pass env cpu_data sipi_vec =
     (if init_signaled cpu_data \<and> \<not> suspend_cpu cpu_data
      then Break (x86_enter_wait_for_sipi cpu_data) (-1) env
      else (case he_wait env cpu_data of
              Stuck \<Rightarrow> Wait_forever
            | Shut_down d \<Rightarrow> Halt d
            | Woken d env' \<Rightarrow> (case he_wakeup d sipi_vec of (d', v) \<Rightarrow> Next d' v env')))"

lemma spin_while_Some:
  "spin_while c env t = Some (t', env') \<Longrightarrow>
     \<not> c t' \<and> (length env' < length env \<or> (env = [] \<and> env' = [] \<and> t' = t))"
  by (induction c env t rule: spin_while.induct) (auto simp: Let_def split: if_splits)

lemma interfere_length:
  "interfere env t = (t', env') \<Longrightarrow> length env' \<le> length env \<and> (env = [] \<longrightarrow> t' = t)"
  by (cases env) auto

lemma he_pass_Next:
  assumes "he_pass env d v = Next d' v' env'"
  shows "length env' < length env \<or> (env = [] \<and> env' = [] \<and> \<not> suspend_cpu d')"
proof -
  from assms obtain d1 env1 d2 env2 d3 where
    sp: "spin_while suspend_cpu env (d\<lparr>cpu_suspended := True\<rparr>) = Some (d1, env1)" and
    i1: "interfere env1 d1 = (d2, env2)" and
    i2: "interfere env2 d2 = (d3, env')" and
    wk: "he_wakeup d3 v = (d', v')"
    by (auto simp: he_pass_def he_wait_def split: if_splits option.splits prod.splits waited.splits)
  from wk have s: "suspend_cpu d' = suspend_cpu d3"
    by (auto simp: he_wakeup_def Let_def split: if_splits)
  from spin_while_Some[OF sp] interfere_length[OF i1] interfere_length[OF i2] s
  show ?thesis by auto
qed

function he_loop :: "env \<Rightarrow> per_cpu \<Rightarrow> int \<Rightarrow> pass" where
  "he_loop env cpu_data sipi_vec =
     (case he_pass env cpu_data sipi_vec of
        Next d v env' \<Rightarrow> if init_signaled d then he_loop env' d v else Next d v env'
      | p \<Rightarrow> p)"
  by pat_completeness auto
termination
proof (relation "measures [\<lambda>(env, d, v). length env,
                           \<lambda>(env, d, v). if init_signaled d \<and> \<not> suspend_cpu d then 0 else 1]")
  show "wf (measures [\<lambda>(env, d, v). length env,
                      \<lambda>(env, d, v). if init_signaled d \<and> \<not> suspend_cpu d then 0 else 1])"
    by simp
next
  fix env :: env and cpu_data sipi_vec d v env'
  assume p: "he_pass env cpu_data sipi_vec = Next d v env'" and i: "init_signaled d"
  from p have "\<not> (init_signaled cpu_data \<and> \<not> suspend_cpu cpu_data)"
    by (auto simp: he_pass_def split: if_splits)
  with he_pass_Next[OF p] i
  show "((env', d, v), (env, cpu_data, sipi_vec)) \<in>
          measures [\<lambda>(env, d, v). length env,
                    \<lambda>(env, d, v). if init_signaled d \<and> \<not> suspend_cpu d then 0 else 1]"
    by auto
qed

text \<open>
  Lines 247 to 261: the pending flush, the unlock, and the read of \<open>wait_for_sipi\<close> outside
  the lock, which only this core writes.
\<close>

definition he_exit :: "per_cpu \<Rightarrow> int \<Rightarrow> int \<times> per_cpu \<times> call list" where
  "he_exit cpu_data sipi_vec =
     (let (d, cs) = (if flush_vcpu_caches cpu_data
                     then (cpu_data\<lparr>flush_vcpu_caches := False\<rparr>, [Vcpu_tlb_flush])
                     else (cpu_data, []))
      in (sipi_vec, d,
          cs @ (if wait_for_sipi d then [Vcpu_park]
                else if 0 \<le> sipi_vec then [Apic_clear] else [])))"

datatype outcome =
    Returns int per_cpu "call list" env
  | Halts per_cpu "call list"
  | Never_returns

definition x86_handle_events :: "env \<Rightarrow> per_cpu \<Rightarrow> outcome" where
  "x86_handle_events env cpu_data =
     (case he_loop env cpu_data (-1) of
        Break d v env' \<Rightarrow> (case he_exit d v of (r, d', cs) \<Rightarrow> Returns r d' cs env')
      | Next d v env' \<Rightarrow> (case he_exit d v of (r, d', cs) \<Rightarrow> Returns r d' cs env')
      | Halt d \<Rightarrow> Halts d [Apic_clear, Vcpu_exit]
      | Wait_forever \<Rightarrow> Never_returns)"

section \<open>Sequences of remote operations and local calls\<close>

text \<open>
  What another core can do to the block of a target, one write or one locked section at
  a time: the locked section of \<open>arch_suspend_cpu\<close>, \<open>arch_resume_cpu\<close>, \<open>arch_reset_cpu\<close>,
  \<open>arch_park_cpu\<close>, line 173 of \<open>arch_shutdown_cpu\<close> and \<open>x86_send_init_sipi\<close>. A shutdown
  is \<open>Suspend\<close>, then \<open>Shutdown_flag\<close>, then \<open>Resume\<close>. \<open>APIC_BSP_PSEUDO_SIPI\<close> is declared
  in \<open>asm/apic.h\<close>, which is not among the sources, so its value is a parameter.
\<close>

datatype remote_op =
    Suspend
  | Resume
  | Reset
  | Park
  | Shutdown_flag
  | Send_init_sipi x86_init_sipi int

fun remote :: "int \<Rightarrow> remote_op \<Rightarrow> per_cpu \<Rightarrow> per_cpu" where
  "remote bsp Suspend d = fst (suspend_request d)"
| "remote bsp Resume d = arch_resume_cpu d"
| "remote bsp Reset d = arch_reset_cpu bsp d"
| "remote bsp Park d = arch_park_cpu d"
| "remote bsp Shutdown_flag d = d\<lparr>shutdown_cpu := True\<rparr>"
| "remote bsp (Send_init_sipi type vec) d = fst (x86_send_init_sipi type vec d)"

text \<open>
  A history of one core: remote operations while the core is outside \<open>x86_handle_events\<close>,
  and calls of \<open>x86_handle_events\<close>, each with the remote operations that fall into its
  waits. \<open>run\<close> lists, for every call that returns, the block at its entry and the value
  returned; a call that halts or waits for ever is the last thing the core does.
\<close>

datatype event = Remote remote_op | Handle_events "remote_op list list"

fun run :: "int \<Rightarrow> event list \<Rightarrow> per_cpu \<Rightarrow> (per_cpu \<times> int) list" where
  "run bsp [] d = []"
| "run bsp (Remote op # evs) d = run bsp evs (remote bsp op d)"
| "run bsp (Handle_events opss # evs) d =
     (case x86_handle_events (map (\<lambda>ops. fold (remote bsp) ops) opss) d of
        Returns r d' cs env' \<Rightarrow> (d, r) # run bsp evs d'
      | Halts d' cs \<Rightarrow> []
      | Never_returns \<Rightarrow> [])"

fun resets :: "event \<Rightarrow> bool" where
  "resets (Remote op) = (op = Reset)"
| "resets (Handle_events opss) = (Reset \<in> set (concat opss))"

section \<open>Cells and the collaborating subsystems\<close>

text \<open>
  \<open>cpu_set\<close> lists the identifiers of the cores whose bit is set;
  \<open>comm_pm_timer_address\<close> is \<open>comm_page.comm_region.pm_timer_address\<close>. The machine holds
  the cells by address, \<open>root_cell\<close> being the address of the root cell, the control blocks
  by core identifier, \<open>system_config->platform_info.x86.pm_timer_address\<close>, and the calls
  made to the subsystems so far, each with the value it returned (\<open>0\<close> for a function that
  returns nothing). What a subsystem returns may depend on all the calls before: an
  answer function gives the value.
\<close>

record cell =
  cpu_set :: "nat list"
  comm_pm_timer_address :: nat

record machine =
  root_cell :: nat
  cells :: "nat \<Rightarrow> cell"
  cpus :: "nat \<Rightarrow> per_cpu"
  system_pm_timer_address :: nat
  calls :: "(call \<times> int) list"

type_synonym answers = "(call \<times> int) list \<Rightarrow> call \<Rightarrow> int"

definition invoke :: "answers \<Rightarrow> call \<Rightarrow> machine \<Rightarrow> int \<times> machine" where
  "invoke orc c m = (let r = orc (calls m) c in (r, m\<lparr>calls := calls m @ [(c, r)]\<rparr>))"

definition invoke_void :: "call \<Rightarrow> machine \<Rightarrow> machine" where
  "invoke_void c m = m\<lparr>calls := calls m @ [(c, 0)]\<rparr>"

text \<open>The labels \<open>error_vm_exit\<close> and \<open>error_iommu_exit\<close> of \<open>arch_cell_create\<close>.\<close>

definition error_vm_exit :: "nat \<Rightarrow> int \<Rightarrow> machine \<Rightarrow> int \<times> machine" where
  "error_vm_exit cell err m = (err, invoke_void (Vcpu_cell_exit cell) m)"

definition error_iommu_exit :: "nat \<Rightarrow> int \<Rightarrow> machine \<Rightarrow> int \<times> machine" where
  "error_iommu_exit cell err m = error_vm_exit cell err (invoke_void (Iommu_cell_exit cell) m)"

definition arch_cell_create :: "answers \<Rightarrow> nat \<Rightarrow> machine \<Rightarrow> int \<times> machine" where
  "arch_cell_create orc cell m =
     (case invoke orc (Vcpu_cell_init cell) m of (err, m1) \<Rightarrow>
        if err \<noteq> 0 then (err, m1)
        else (case invoke orc (Iommu_cell_init cell) m1 of (err, m2) \<Rightarrow>
          if err \<noteq> 0 then error_vm_exit cell err m2
          else (case invoke orc (Pci_cell_init cell) m2 of (err, m3) \<Rightarrow>
            if err \<noteq> 0 then error_iommu_exit cell err m3
            else (let m4 = invoke_void (Ioapic_cell_init cell) m3;
                      m5 = m4\<lparr>cells := (cells m4)
                             (cell := (cells m4 cell)
                                \<lparr>comm_pm_timer_address := system_pm_timer_address m4\<rparr>)\<rparr>
                  in (0, m5)))))"

definition arch_map_memory_region :: "answers \<Rightarrow> nat \<Rightarrow> nat \<Rightarrow> machine \<Rightarrow> int \<times> machine" where
  "arch_map_memory_region orc cell mem m =
     (case invoke orc (Vcpu_map_memory_region cell mem) m of (err, m1) \<Rightarrow>
        if err \<noteq> 0 then (err, m1)
        else (case invoke orc (Iommu_map_memory_region cell mem) m1 of (err, m2) \<Rightarrow>
          if err \<noteq> 0 then (err, snd (invoke orc (Vcpu_unmap_memory_region cell mem) m2))
          else (err, m2)))"

definition arch_unmap_memory_region :: "answers \<Rightarrow> nat \<Rightarrow> nat \<Rightarrow> machine \<Rightarrow> int \<times> machine" where
  "arch_unmap_memory_region orc cell mem m =
     (case invoke orc (Iommu_unmap_memory_region cell mem) m of (err, m1) \<Rightarrow>
        if err \<noteq> 0 then (err, m1)
        else invoke orc (Vcpu_unmap_memory_region cell mem) m1)"

definition arch_cell_destroy :: "nat \<Rightarrow> machine \<Rightarrow> machine" where
  "arch_cell_destroy cell m =
     invoke_void (Vcpu_cell_exit cell)
       (invoke_void (Iommu_cell_exit cell)
          (invoke_void (Pci_cell_exit cell)
             (invoke_void (Ioapic_cell_exit cell) m)))"

text \<open>
  Modelled from the spec: the macro \<open>for_each_cpu_except\<close> is declared in
  \<open>jailhouse/control.h\<close>, which is not among the sources. It visits every core of the set
  other than the excepted one.
\<close>

definition for_each_cpu_except :: "nat list \<Rightarrow> nat \<Rightarrow> nat list" where
  "for_each_cpu_except cpu_ids exception = filter (\<lambda>cpu. cpu \<noteq> exception) cpu_ids"

definition set_flush_vcpu_caches :: "nat \<Rightarrow> machine \<Rightarrow> machine" where
  "set_flush_vcpu_caches cpu m = m\<lparr>cpus := (cpus m)(cpu := (cpus m cpu)\<lparr>flush_vcpu_caches := True\<rparr>)\<rparr>"

definition arch_config_commit :: "nat option \<Rightarrow> nat \<Rightarrow> machine \<Rightarrow> machine" where
  "arch_config_commit cell_added_removed current_cpu m =
     (let m1 = fold set_flush_vcpu_caches
                 (for_each_cpu_except (cpu_set (cells m (root_cell m))) current_cpu) m;
          m2 = (case cell_added_removed of
                  None \<Rightarrow> m1
                | Some c \<Rightarrow>
                    if c \<noteq> root_cell m1
                    then fold set_flush_vcpu_caches
                           (for_each_cpu_except (cpu_set (cells m1 c)) current_cpu) m1
                    else m1)
      in invoke_void (Ioapic_config_commit cell_added_removed)
           (invoke_void (Pci_config_commit cell_added_removed)
              (invoke_void (Iommu_config_commit cell_added_removed)
                 (invoke_void (Vcpu_tlb_flush) m2))))"

text \<open>
  Modelled from the spec: the subsystems themselves are not among the sources. A
  subsystem holds state for a cell from an initialization that succeeded until its exit
  for that cell; \<open>ioapic_cell_init\<close> cannot fail.
\<close>

datatype subsystem = VCPU | IOMMU | PCI | IOAPIC

fun init_call :: "subsystem \<Rightarrow> nat \<Rightarrow> call" where
  "init_call VCPU c = Vcpu_cell_init c"
| "init_call IOMMU c = Iommu_cell_init c"
| "init_call PCI c = Pci_cell_init c"
| "init_call IOAPIC c = Ioapic_cell_init c"

fun exit_call :: "subsystem \<Rightarrow> nat \<Rightarrow> call" where
  "exit_call VCPU c = Vcpu_cell_exit c"
| "exit_call IOMMU c = Iommu_cell_exit c"
| "exit_call PCI c = Pci_cell_exit c"
| "exit_call IOAPIC c = Ioapic_cell_exit c"

definition holds_state :: "subsystem \<Rightarrow> nat \<Rightarrow> (call \<times> int) list \<Rightarrow> bool" where
  "holds_state sub c l =
     foldl (\<lambda>b (k, r). if k = init_call sub c then b \<or> r = 0
                        else if k = exit_call sub c then False else b) False l"

text \<open>A core at rest: no flag set, no startup vector pending.\<close>

definition idle :: per_cpu where
  "idle = \<lparr>suspend_cpu = False, cpu_suspended = False, shutdown_cpu = False,
            init_signaled = False, wait_for_sipi = False, sipi_vector = -1, failed = False,
            flush_vcpu_caches = False\<rparr>"

text \<open>
  A machine with the root cell at address \<open>0\<close> on cores \<open>0\<close> and \<open>1\<close> and a cell at
  address \<open>1\<close> on cores \<open>2\<close> and \<open>3\<close>, and subsystems that always succeed, or of which
  the IOMMU, or the PCI layer, refuses with \<open>-12\<close>.
\<close>

definition example_machine :: machine where
  "example_machine =
     \<lparr>root_cell = 0,
      cells = (\<lambda>a. if a = 0 then \<lparr>cpu_set = [0, 1], comm_pm_timer_address = 0\<rparr>
                    else if a = 1 then \<lparr>cpu_set = [2, 3], comm_pm_timer_address = 0\<rparr>
                    else \<lparr>cpu_set = [], comm_pm_timer_address = 0\<rparr>),
      cpus = (\<lambda>cpu. idle),
      system_pm_timer_address = 1032,
      calls = []\<rparr>"

definition all_succeed :: answers where
  "all_succeed l k = 0"

definition iommu_refuses :: answers where
  "iommu_refuses l k =
     (case k of Iommu_cell_init c \<Rightarrow> -12
              | Iommu_map_memory_region c mem \<Rightarrow> -12
              | Iommu_unmap_memory_region c mem \<Rightarrow> -12
              | _ \<Rightarrow> 0)"

definition pci_refuses :: answers where
  "pci_refuses l k = (case k of Pci_cell_init c \<Rightarrow> -12 | _ \<Rightarrow> 0)"

text \<open>
  Invariants of the histories. A vector pending in the block is \<open>justified\<close> when
  \<open>wait_for_sipi\<close> is set or, where a reset has happened (\<open>r\<close>), when it is the boot
  pseudo-vector. \<open>keeps\<close> is what every remote operation guarantees; \<open>inv\<close> holds of the
  block during a call whose entry had \<open>wait_for_sipi = W\<close> and \<open>failed = F\<close>, and \<open>local_ok\<close>
  of the local variable \<open>sipi_vector\<close>.
\<close>

definition justified :: "bool \<Rightarrow> int \<Rightarrow> per_cpu \<Rightarrow> bool" where
  "justified r bsp d \<longleftrightarrow>
     (0 \<le> sipi_vector d \<longrightarrow> wait_for_sipi d \<or> (r \<and> sipi_vector d = bsp))"

definition keeps :: "bool \<Rightarrow> int \<Rightarrow> (per_cpu \<Rightarrow> per_cpu) \<Rightarrow> bool" where
  "keeps r bsp e \<longleftrightarrow>
     (\<forall>d. wait_for_sipi (e d) = wait_for_sipi d \<and> failed (e d) = failed d \<and>
          (justified r bsp d \<longrightarrow> justified r bsp (e d)))"

definition inv :: "bool \<Rightarrow> int \<Rightarrow> bool \<Rightarrow> bool \<Rightarrow> per_cpu \<Rightarrow> bool" where
  "inv r bsp W F d \<longleftrightarrow> justified r bsp d \<and> (wait_for_sipi d \<longrightarrow> W) \<and> failed d = F"

definition local_ok :: "bool \<Rightarrow> int \<Rightarrow> bool \<Rightarrow> bool \<Rightarrow> int \<Rightarrow> bool" where
  "local_ok r bsp W F v \<longleftrightarrow> (0 \<le> v \<longrightarrow> \<not> F \<and> (W \<or> (r \<and> v = bsp)))"

section \<open>The loop of \<open>x86_handle_events\<close>, one pass at a time\<close>

declare he_loop.simps [simp del]

lemma he_loop_Break:
  "init_signaled s \<Longrightarrow> \<not> suspend_cpu s \<Longrightarrow>
     he_loop env s v = Break (x86_enter_wait_for_sipi s) (-1) env"
  by (simp add: he_loop.simps he_pass_def)

lemma he_loop_wait:
  "\<not> (init_signaled s \<and> \<not> suspend_cpu s) \<Longrightarrow>
     he_loop env s v =
       (case he_wait env s of
          Stuck \<Rightarrow> Wait_forever
        | Shut_down d \<Rightarrow> Halt d
        | Woken d env' \<Rightarrow>
            (case he_wakeup d v of (d', v') \<Rightarrow>
               if init_signaled d' then he_loop env' d' v' else Next d' v' env'))"
  by (subst he_loop.simps) (auto simp: he_pass_def split: waited.splits prod.splits)

section \<open>INIT and a pending startup vector\<close>

text \<open>
  C1, as the code has it. When \<open>x86_handle_events\<close> is entered with \<open>init_signaled\<close> set,
  \<open>suspend_cpu\<close> clear and a startup vector pending in the block, the call clears
  \<open>init_signaled\<close>, sets \<open>wait_for_sipi\<close>, parks the core and returns \<open>-1\<close>, whatever the
  other cores do; it performs a pending flush. The field \<open>sipi_vector\<close> of the block keeps
  its value: line 217 resets the local variable only.
\<close>

theorem init_branch_keeps_stored_vector:
  assumes "init_signaled s" and "\<not> suspend_cpu s" and "0 \<le> sipi_vector s"
  shows "x86_handle_events env s =
           Returns (-1)
             (s\<lparr>init_signaled := False, wait_for_sipi := True, flush_vcpu_caches := False\<rparr>)
             ((if flush_vcpu_caches s then [Vcpu_tlb_flush] else []) @ [Vcpu_park]) env"
  using assms
  by (simp add: x86_handle_events_def he_loop_Break he_exit_def x86_enter_wait_for_sipi_def)

theorem init_branch_keeps_stored_vector_witness:
  "init_signaled (idle\<lparr>init_signaled := True, sipi_vector := 5\<rparr>) \<and>
   \<not> suspend_cpu (idle\<lparr>init_signaled := True, sipi_vector := 5\<rparr>) \<and>
   0 \<le> sipi_vector (idle\<lparr>init_signaled := True, sipi_vector := 5\<rparr>) \<and>
   x86_handle_events [] (idle\<lparr>init_signaled := True, sipi_vector := 5\<rparr>) =
     Returns (-1) (idle\<lparr>wait_for_sipi := True, sipi_vector := 5\<rparr>) [Vcpu_park] []"
  using init_branch_keeps_stored_vector [of "idle\<lparr>init_signaled := True, sipi_vector := 5\<rparr>" "[]"]
  by (simp add: idle_def)

text \<open>
  The claim C1 as stated fails: with vector \<open>5\<close> pending and INIT signalled, the first call
  returns \<open>-1\<close> and leaves \<open>5\<close> in the block, and the next call returns \<open>5\<close>.
\<close>

theorem stored_vector_survives_init:
  "x86_handle_events [] (idle\<lparr>init_signaled := True, sipi_vector := 5\<rparr>) =
     Returns (-1) (idle\<lparr>wait_for_sipi := True, sipi_vector := 5\<rparr>) [Vcpu_park] [] \<and>
   sipi_vector (idle\<lparr>wait_for_sipi := True, sipi_vector := 5\<rparr>) = 5 \<and>
   x86_handle_events [] (idle\<lparr>wait_for_sipi := True, sipi_vector := 5\<rparr>) =
     Returns 5 idle [Apic_clear] []"
  by (simp add: idle_def x86_handle_events_def he_loop_Break he_loop_wait he_wait_def
      he_wakeup_def he_exit_def x86_enter_wait_for_sipi_def)

text \<open>
  Where INIT is found after a wait, the wake-up has already taken the pending vector out
  of the block, and the INIT branch of the next pass drops it: the call returns \<open>-1\<close>
  and the field holds \<open>-1\<close>.
\<close>

lemma init_after_wait_discards_vector:
  assumes "\<not> (init_signaled s \<and> \<not> suspend_cpu s)" and "he_wait env s = Woken w env'"
      and "init_signaled w" and "\<not> suspend_cpu w"
  shows "x86_handle_events env s =
           Returns (-1)
             ((fst (he_wakeup w (-1)))
                \<lparr>init_signaled := False, wait_for_sipi := True, flush_vcpu_caches := False\<rparr>)
             ((if flush_vcpu_caches w then [Vcpu_tlb_flush] else []) @ [Vcpu_park]) env' \<and>
         (0 \<le> sipi_vector w \<longrightarrow> sipi_vector (fst (he_wakeup w (-1))) = -1)"
proof -
  obtain d1 v1 where wk: "he_wakeup w (-1) = (d1, v1)" by (cases "he_wakeup w (-1)")
  then have f: "init_signaled d1" "\<not> suspend_cpu d1" "flush_vcpu_caches d1 = flush_vcpu_caches w"
    "0 \<le> sipi_vector w \<longrightarrow> sipi_vector d1 = -1"
    using assms(3,4) by (auto simp: he_wakeup_def Let_def split: if_splits)
  have "he_loop env s (-1) = Break (x86_enter_wait_for_sipi d1) (-1) env'"
    using assms(1,2) wk f by (simp add: he_loop_wait he_loop_Break)
  with wk f show ?thesis
    by (simp add: x86_handle_events_def he_exit_def x86_enter_wait_for_sipi_def)
qed

section \<open>INIT and SIPI requests\<close>

text \<open>
  C7. \<open>x86_send_init_sipi\<close> with \<open>X86_INIT\<close> sets \<open>init_signaled\<close> exactly when
  \<open>wait_for_sipi\<close> is clear, with \<open>X86_SIPI\<close> it records the vector exactly when
  \<open>wait_for_sipi\<close> is set; in these two cases, and in no other, it sends the NMI. In
  every other case the block is left as it was.
\<close>

theorem send_init_sipi_effect:
  "x86_send_init_sipi type vec t =
     (if type = X86_INIT \<and> \<not> wait_for_sipi t
      then (t\<lparr>init_signaled := True\<rparr>, [Apic_send_nmi_ipi])
      else if type = X86_SIPI \<and> wait_for_sipi t
      then (t\<lparr>sipi_vector := vec\<rparr>, [Apic_send_nmi_ipi])
      else (t, []))"
  by (cases type) (simp_all add: x86_send_init_sipi_def)

theorem send_init_sipi_effect_witness:
  "x86_send_init_sipi X86_INIT 0 idle = (idle\<lparr>init_signaled := True\<rparr>, [Apic_send_nmi_ipi]) \<and>
   x86_send_init_sipi X86_INIT 0 (idle\<lparr>wait_for_sipi := True\<rparr>) =
     (idle\<lparr>wait_for_sipi := True\<rparr>, []) \<and>
   x86_send_init_sipi X86_SIPI 7 (idle\<lparr>wait_for_sipi := True\<rparr>) =
     (idle\<lparr>wait_for_sipi := True, sipi_vector := 7\<rparr>, [Apic_send_nmi_ipi]) \<and>
   x86_send_init_sipi X86_SIPI 7 idle = (idle, [])"
  using send_init_sipi_effect [of X86_INIT 0 idle]
    send_init_sipi_effect [of X86_INIT 0 "idle\<lparr>wait_for_sipi := True\<rparr>"]
    send_init_sipi_effect [of X86_SIPI 7 "idle\<lparr>wait_for_sipi := True\<rparr>"]
    send_init_sipi_effect [of X86_SIPI 7 idle]
  by (simp add: idle_def)

section \<open>\<open>cpu_suspended\<close> when \<open>x86_handle_events\<close> returns\<close>

lemma he_wakeup_cpu_suspended: "he_wakeup d v = (d', v') \<Longrightarrow> \<not> cpu_suspended d'"
  by (auto simp: he_wakeup_def Let_def split: if_splits)

lemma he_loop_cpu_suspended:
  "(he_loop env s v = Break d r env' \<longrightarrow>
      \<not> cpu_suspended d \<or> (init_signaled s \<and> \<not> suspend_cpu s \<and> cpu_suspended s)) \<and>
   (he_loop env s v = Next d r env' \<longrightarrow> \<not> cpu_suspended d)"
proof (induction env s v rule: he_loop.induct)
  case (1 env s v)
  show ?case
  proof (cases "init_signaled s \<and> \<not> suspend_cpu s")
    case True
    then show ?thesis by (auto simp: he_loop_Break x86_enter_wait_for_sipi_def)
  next
    case False
    show ?thesis
    proof (cases "he_wait env s")
      case (Woken w env1)
      obtain d1 v1 where wk: "he_wakeup w v = (d1, v1)" by (cases "he_wakeup w v")
      have p: "he_pass env s v = Next d1 v1 env1"
        using False Woken wk by (simp add: he_pass_def)
      have c: "\<not> cpu_suspended d1" using wk by (rule he_wakeup_cpu_suspended)
      show ?thesis
      proof (cases "init_signaled d1")
        case True
        have "he_loop env s v = he_loop env1 d1 v1"
          using False Woken wk True by (simp add: he_loop_wait)
        with "1.IH"[OF p True] c show ?thesis by auto
      next
        case F2: False
        have "he_loop env s v = Next d1 v1 env1"
          using False Woken wk F2 by (simp add: he_loop_wait)
        with c show ?thesis by auto
      qed
    qed (use False in \<open>simp_all add: he_loop_wait\<close>)
  qed
qed

text \<open>
  C10, as the code has it. When \<open>x86_handle_events\<close> returns, \<open>cpu_suspended\<close> is clear,
  unless the call was entered with \<open>cpu_suspended\<close> already set and left through the INIT
  branch of its first pass (lines 215 to 218), which does not write the flag.
\<close>

theorem handle_events_returns_not_suspended:
  assumes "\<not> (cpu_suspended s \<and> init_signaled s \<and> \<not> suspend_cpu s)"
      and "x86_handle_events env s = Returns r d cs env'"
  shows "\<not> cpu_suspended d"
proof -
  from assms(2) obtain d0 v0 where
    "he_loop env s (-1) = Break d0 v0 env' \<or> he_loop env s (-1) = Next d0 v0 env'" and
    ex: "he_exit d0 v0 = (r, d, cs)"
    by (auto simp: x86_handle_events_def split: pass.splits prod.splits)
  moreover have "cpu_suspended d = cpu_suspended d0"
    using ex by (auto simp: he_exit_def split: if_splits)
  ultimately show ?thesis
    using he_loop_cpu_suspended[of env s "-1" d0 v0 env'] assms(1) by blast
qed

theorem handle_events_returns_not_suspended_witness:
  "\<not> (cpu_suspended (idle\<lparr>suspend_cpu := True\<rparr>) \<and> init_signaled (idle\<lparr>suspend_cpu := True\<rparr>) \<and>
      \<not> suspend_cpu (idle\<lparr>suspend_cpu := True\<rparr>)) \<and>
   x86_handle_events [arch_resume_cpu] (idle\<lparr>suspend_cpu := True\<rparr>) = Returns (-1) idle [] [] \<and>
   \<not> cpu_suspended idle"
  using handle_events_returns_not_suspended
    [of "idle\<lparr>suspend_cpu := True\<rparr>" "[arch_resume_cpu]" "-1" idle "[]" "[]"]
  by (simp add: idle_def x86_handle_events_def he_loop_wait he_wait_def he_wakeup_def
      he_exit_def arch_resume_cpu_def)

text \<open>
  The claim C10 as stated fails for a block with \<open>cpu_suspended\<close> and \<open>init_signaled\<close> set
  and \<open>suspend_cpu\<close> clear: the call returns and the flag is still set.
\<close>

theorem init_branch_leaves_cpu_suspended:
  "x86_handle_events [] (idle\<lparr>cpu_suspended := True, init_signaled := True\<rparr>) =
     Returns (-1) (idle\<lparr>cpu_suspended := True, wait_for_sipi := True\<rparr>) [Vcpu_park] [] \<and>
   cpu_suspended (idle\<lparr>cpu_suspended := True, wait_for_sipi := True\<rparr>)"
  by (simp add: idle_def x86_handle_events_def he_loop_Break he_exit_def
      x86_enter_wait_for_sipi_def)

section \<open>Taking a pending startup vector\<close>

lemma he_wakeup_pending:
  "0 \<le> sipi_vector w \<Longrightarrow>
   he_wakeup w v =
     (if failed w then (w\<lparr>cpu_suspended := False, sipi_vector := -1\<rparr>, v)
      else (w\<lparr>cpu_suspended := False, wait_for_sipi := False, sipi_vector := -1\<rparr>,
            sipi_vector w))"
  by (simp add: he_wakeup_def)

text \<open>
  C8. Let \<open>w\<close> be the block when the core, back from its wait, holds the lock again, with
  a vector pending in it. If \<open>failed\<close> is clear, lines 236 to 244 clear \<open>wait_for_sipi\<close>,
  copy the vector into the local variable that is returned and reset the field to \<open>-1\<close>;
  if \<open>failed\<close> is set they reset the field, leave \<open>wait_for_sipi\<close> as it is and leave the
  local variable alone. When no INIT is signalled at that moment the loop ends there: the
  call returns the vector in the first case and \<open>-1\<close> in the second.
\<close>

theorem wakeup_takes_pending_vector:
  assumes "0 \<le> sipi_vector w"
  shows "he_wakeup w v =
           (if failed w then (w\<lparr>cpu_suspended := False, sipi_vector := -1\<rparr>, v)
            else (w\<lparr>cpu_suspended := False, wait_for_sipi := False, sipi_vector := -1\<rparr>,
                  sipi_vector w)) \<and>
         (\<not> (init_signaled s \<and> \<not> suspend_cpu s) \<and> he_wait env s = Woken w env' \<and>
          \<not> init_signaled w \<longrightarrow>
            he_loop env s v =
              Next (fst (he_wakeup w v)) (if failed w then v else sipi_vector w) env' \<and>
            x86_handle_events env s =
              (if failed w
               then Returns (-1)
                      (w\<lparr>cpu_suspended := False, sipi_vector := -1, flush_vcpu_caches := False\<rparr>)
                      ((if flush_vcpu_caches w then [Vcpu_tlb_flush] else []) @
                       (if wait_for_sipi w then [Vcpu_park] else [])) env'
               else Returns (sipi_vector w)
                      (w\<lparr>cpu_suspended := False, wait_for_sipi := False, sipi_vector := -1,
                         flush_vcpu_caches := False\<rparr>)
                      ((if flush_vcpu_caches w then [Vcpu_tlb_flush] else []) @ [Apic_clear])
                      env'))"
  using assms
  by (auto simp: he_wakeup_pending he_loop_wait x86_handle_events_def he_exit_def)

theorem wakeup_takes_pending_vector_witness:
  "0 \<le> sipi_vector (idle\<lparr>cpu_suspended := True, wait_for_sipi := True, sipi_vector := 7\<rparr>) \<and>
   he_wakeup (idle\<lparr>cpu_suspended := True, wait_for_sipi := True, sipi_vector := 7\<rparr>) (-1) =
     (idle, 7) \<and>
   \<not> (init_signaled (idle\<lparr>wait_for_sipi := True\<rparr>) \<and>
      \<not> suspend_cpu (idle\<lparr>wait_for_sipi := True\<rparr>)) \<and>
   he_wait [fst \<circ> x86_send_init_sipi X86_SIPI 7] (idle\<lparr>wait_for_sipi := True\<rparr>) =
     Woken (idle\<lparr>cpu_suspended := True, wait_for_sipi := True, sipi_vector := 7\<rparr>) [] \<and>
   \<not> init_signaled (idle\<lparr>cpu_suspended := True, wait_for_sipi := True, sipi_vector := 7\<rparr>) \<and>
   x86_handle_events [fst \<circ> x86_send_init_sipi X86_SIPI 7] (idle\<lparr>wait_for_sipi := True\<rparr>) =
     Returns 7 idle [Apic_clear] [] \<and>
   x86_handle_events [fst \<circ> x86_send_init_sipi X86_SIPI 7]
       (idle\<lparr>wait_for_sipi := True, failed := True\<rparr>) =
     Returns (-1) (idle\<lparr>wait_for_sipi := True, failed := True\<rparr>) [Vcpu_park] []"
  using wakeup_takes_pending_vector
    [where w = "idle\<lparr>cpu_suspended := True, wait_for_sipi := True, sipi_vector := 7\<rparr>"
       and s = "idle\<lparr>wait_for_sipi := True\<rparr>"
       and env = "[fst \<circ> x86_send_init_sipi X86_SIPI 7]" and env' = "[]" and v = "-1"]
    wakeup_takes_pending_vector
    [where w = "idle\<lparr>cpu_suspended := True, wait_for_sipi := True, sipi_vector := 7,
                    failed := True\<rparr>"
       and s = "idle\<lparr>wait_for_sipi := True, failed := True\<rparr>"
       and env = "[fst \<circ> x86_send_init_sipi X86_SIPI 7]" and env' = "[]" and v = "-1"]
  by (simp add: idle_def he_wait_def x86_send_init_sipi_def)

section \<open>Suspending a core\<close>

lemma spin_while_not: "spin_while c env t = Some (t', env') \<Longrightarrow> \<not> c t'"
  using spin_while_Some by blast

lemma spin_while_prefix:
  "spin_while c env t = Some (t', env') \<Longrightarrow>
     \<exists>n\<le>length env. env' = drop n env \<and> t' = fold (\<lambda>e. e) (take n env) t"
proof (induction c env t rule: spin_while.induct)
  case (1 c t)
  then show ?case by (auto split: if_splits)
next
  case (2 c e es t)
  show ?case
  proof (cases "c (e t)")
    case True
    with 2 obtain n where
      "n \<le> length es" "env' = drop n es" "t' = fold (\<lambda>e. e) (take n es) (e t)"
      by (auto simp: Let_def)
    then show ?thesis by (intro exI[of _ "Suc n"]) simp
  next
    case False
    with 2 show ?thesis by (intro exI[of _ "Suc 0"]) (auto simp: Let_def)
  qed
qed

text \<open>The wait ends once a read finds the condition false.\<close>

lemma spin_while_ends:
  "0 < n \<Longrightarrow> n \<le> length env \<Longrightarrow> \<not> c (fold (\<lambda>e. e) (take n env) t) \<Longrightarrow>
     spin_while c env t \<noteq> None"
proof (induction env arbitrary: n t)
  case Nil
  then show ?case by simp
next
  case (Cons e es)
  show ?case
  proof (cases "c (e t)")
    case False
    then show ?thesis by (simp add: Let_def)
  next
    case True
    obtain k where n: "n = Suc k" using Cons.prems(1) by (cases n) auto
    with Cons.prems True have "0 < k" by (cases k) auto
    with Cons.IH[of k "e t"] Cons.prems n True show ?thesis by (simp add: Let_def)
  qed
qed

lemma arch_suspend_cpu_Some:
  "arch_suspend_cpu env t = (cs, Some (d, env')) \<Longrightarrow> cpu_suspended d"
  by (auto simp: arch_suspend_cpu_def suspend_request_def Let_def split: if_splits
      dest: spin_while_not)

text \<open>
  C5. \<open>arch_suspend_cpu\<close> sets \<open>suspend_cpu\<close> and reads \<open>cpu_suspended\<close> in one section
  under the lock of the target. If the flag was set it returns at once and sends nothing.
  Otherwise it sends the NMI once, and if it returns, it returns a block in which
  \<open>cpu_suspended\<close> is set, reached from the block it left under the lock by what the
  other cores did in the meantime.
\<close>

theorem suspend_cpu_waits_for_target:
  "suspend_request t = (t\<lparr>suspend_cpu := True\<rparr>, cpu_suspended t) \<and>
   (cpu_suspended t \<longrightarrow> arch_suspend_cpu env t = ([], Some (t\<lparr>suspend_cpu := True\<rparr>, env))) \<and>
   (\<not> cpu_suspended t \<longrightarrow>
      fst (arch_suspend_cpu env t) = [Apic_send_nmi_ipi] \<and>
      (snd (arch_suspend_cpu env t) = Some (d, env') \<longrightarrow>
         cpu_suspended d \<and>
         (\<exists>n\<le>length env. env' = drop n env \<and>
                          d = fold (\<lambda>e. e) (take n env) (t\<lparr>suspend_cpu := True\<rparr>))))"
  by (auto simp: arch_suspend_cpu_def suspend_request_def dest: spin_while_not spin_while_prefix)

theorem suspend_cpu_waits_for_target_witness:
  "suspend_request idle = (idle\<lparr>suspend_cpu := True\<rparr>, False) \<and>
   cpu_suspended (idle\<lparr>cpu_suspended := True\<rparr>) \<and>
   arch_suspend_cpu [] (idle\<lparr>cpu_suspended := True\<rparr>) =
     ([], Some (idle\<lparr>suspend_cpu := True, cpu_suspended := True\<rparr>, [])) \<and>
   \<not> cpu_suspended idle \<and>
   arch_suspend_cpu [\<lambda>d. d, \<lambda>d. d\<lparr>cpu_suspended := True\<rparr>] idle =
     ([Apic_send_nmi_ipi], Some (idle\<lparr>suspend_cpu := True, cpu_suspended := True\<rparr>, [])) \<and>
   cpu_suspended (idle\<lparr>suspend_cpu := True, cpu_suspended := True\<rparr>) \<and>
   arch_suspend_cpu [] idle = ([Apic_send_nmi_ipi], None)"
  using suspend_cpu_waits_for_target [where t = "idle\<lparr>cpu_suspended := True\<rparr>" and env = "[]"]
    suspend_cpu_waits_for_target
      [where t = idle and env = "[\<lambda>d. d, \<lambda>d. d\<lparr>cpu_suspended := True\<rparr>]"
         and d = "idle\<lparr>suspend_cpu := True, cpu_suspended := True\<rparr>" and env' = "[]"]
  by (simp add: idle_def arch_suspend_cpu_def suspend_request_def)

section \<open>Shutting a core down\<close>

lemma he_wait_Shut_down: "he_wait env s = Shut_down d \<Longrightarrow> shutdown_cpu d"
  by (auto simp: he_wait_def split: option.splits prod.splits if_splits)

lemma he_loop_Halt: "he_loop env s v = Halt d \<Longrightarrow> shutdown_cpu d"
proof (induction env s v rule: he_loop.induct)
  case (1 env s v)
  show ?case
  proof (cases "init_signaled s \<and> \<not> suspend_cpu s")
    case True
    with "1.prems" show ?thesis by (simp add: he_loop_Break)
  next
    case False
    show ?thesis
    proof (cases "he_wait env s")
      case (Woken w env1)
      obtain d1 v1 where wk: "he_wakeup w v = (d1, v1)" by (cases "he_wakeup w v")
      have p: "he_pass env s v = Next d1 v1 env1"
        using False Woken wk by (simp add: he_pass_def)
      from "1.prems" False Woken wk have i: "init_signaled d1" and "he_loop env1 d1 v1 = Halt d"
        by (auto simp: he_loop_wait split: if_splits)
      with "1.IH"[OF p i] show ?thesis by simp
    next
      case (Shut_down x)
      with "1.prems" False show ?thesis by (auto simp: he_loop_wait dest: he_wait_Shut_down)
    next
      case Stuck
      with "1.prems" False show ?thesis by (simp add: he_loop_wait)
    qed
  qed
qed

text \<open>
  C9. \<open>arch_shutdown_cpu\<close> performs \<open>arch_suspend_cpu\<close>: it sets \<open>suspend_cpu\<close>, sends the
  NMI unless the target had published \<open>cpu_suspended\<close>, and waits for that flag. Only
  then it sets \<open>shutdown_cpu\<close>; the other cores find the block with \<open>shutdown_cpu\<close> set
  before \<open>suspend_cpu\<close> is cleared; and last it clears \<open>suspend_cpu\<close>. If the wait never
  ends, neither write happens. A target that waits with \<open>suspend_cpu\<close> set and meets these
  two writes in this order calls \<open>apic_clear\<close> and \<open>vcpu_exit\<close> and halts. In general a
  core that leaves its wait in \<open>x86_handle_events\<close> and reads \<open>shutdown_cpu\<close> set halts in
  this way; the call halts in no other way, and a call that halts does not return.
\<close>

theorem shutdown_cpu_halts_target:
  "arch_shutdown_cpu env t =
     (if cpu_suspended t
      then (case interfere env (t\<lparr>suspend_cpu := True, shutdown_cpu := True\<rparr>) of
              (w, e) \<Rightarrow> ([], Some (w\<lparr>suspend_cpu := False\<rparr>, e)))
      else (case spin_while (\<lambda>d. \<not> cpu_suspended d) env (t\<lparr>suspend_cpu := True\<rparr>) of
              None \<Rightarrow> ([Apic_send_nmi_ipi], None)
            | Some (u, e') \<Rightarrow>
                (case interfere e' (u\<lparr>shutdown_cpu := True\<rparr>) of
                   (w, e) \<Rightarrow> ([Apic_send_nmi_ipi], Some (w\<lparr>suspend_cpu := False\<rparr>, e))))) \<and>
   (arch_suspend_cpu env t = (cs, Some (d1, env1)) \<longrightarrow>
      cpu_suspended d1 \<and>
      arch_shutdown_cpu env t =
        (cs, Some ((fst (interfere env1 (d1\<lparr>shutdown_cpu := True\<rparr>)))\<lparr>suspend_cpu := False\<rparr>,
                   snd (interfere env1 (d1\<lparr>shutdown_cpu := True\<rparr>))))) \<and>
   (arch_suspend_cpu env t = (cs, None) \<longrightarrow> arch_shutdown_cpu env t = (cs, None)) \<and>
   (suspend_cpu s \<longrightarrow>
      x86_handle_events [\<lambda>d. d\<lparr>shutdown_cpu := True\<rparr>, \<lambda>d. d\<lparr>suspend_cpu := False\<rparr>] s =
        Halts (s\<lparr>cpu_suspended := True, shutdown_cpu := True, suspend_cpu := False\<rparr>)
          [Apic_clear, Vcpu_exit]) \<and>
   (\<not> (init_signaled s \<and> \<not> suspend_cpu s) \<and> he_wait env2 s = Shut_down h \<longrightarrow>
      he_loop env2 s v = Halt h \<and> x86_handle_events env2 s = Halts h [Apic_clear, Vcpu_exit]) \<and>
   (x86_handle_events env2 s = Halts h cs2 \<longrightarrow>
      shutdown_cpu h \<and> cs2 = [Apic_clear, Vcpu_exit] \<and>
      (\<forall>r d' cs' e'. x86_handle_events env2 s \<noteq> Returns r d' cs' e'))"
proof (intro conjI impI)
  show "arch_shutdown_cpu env t =
     (if cpu_suspended t
      then (case interfere env (t\<lparr>suspend_cpu := True, shutdown_cpu := True\<rparr>) of
              (w, e) \<Rightarrow> ([], Some (w\<lparr>suspend_cpu := False\<rparr>, e)))
      else (case spin_while (\<lambda>d. \<not> cpu_suspended d) env (t\<lparr>suspend_cpu := True\<rparr>) of
              None \<Rightarrow> ([Apic_send_nmi_ipi], None)
            | Some (u, e') \<Rightarrow>
                (case interfere e' (u\<lparr>shutdown_cpu := True\<rparr>) of
                   (w, e) \<Rightarrow> ([Apic_send_nmi_ipi], Some (w\<lparr>suspend_cpu := False\<rparr>, e)))))"
    by (simp add: arch_shutdown_cpu_def arch_suspend_cpu_def suspend_request_def
        arch_resume_cpu_def split: prod.splits option.splits)
next
  assume a: "arch_suspend_cpu env t = (cs, Some (d1, env1))"
  then show "cpu_suspended d1" by (rule arch_suspend_cpu_Some)
  from a show "arch_shutdown_cpu env t =
        (cs, Some ((fst (interfere env1 (d1\<lparr>shutdown_cpu := True\<rparr>)))\<lparr>suspend_cpu := False\<rparr>,
                   snd (interfere env1 (d1\<lparr>shutdown_cpu := True\<rparr>))))"
    by (simp add: arch_shutdown_cpu_def arch_resume_cpu_def split: prod.splits)
next
  assume "arch_suspend_cpu env t = (cs, None)"
  then show "arch_shutdown_cpu env t = (cs, None)" by (simp add: arch_shutdown_cpu_def)
next
  assume s: "suspend_cpu s"
  have w: "he_wait [\<lambda>d. d\<lparr>shutdown_cpu := True\<rparr>, \<lambda>d. d\<lparr>suspend_cpu := False\<rparr>] s =
             Shut_down (s\<lparr>cpu_suspended := True, shutdown_cpu := True, suspend_cpu := False\<rparr>)"
    using s by (simp add: he_wait_def)
  from s w
  show "x86_handle_events [\<lambda>d. d\<lparr>shutdown_cpu := True\<rparr>, \<lambda>d. d\<lparr>suspend_cpu := False\<rparr>] s =
        Halts (s\<lparr>cpu_suspended := True, shutdown_cpu := True, suspend_cpu := False\<rparr>)
          [Apic_clear, Vcpu_exit]"
    by (simp add: x86_handle_events_def he_loop_wait)
next
  assume a: "\<not> (init_signaled s \<and> \<not> suspend_cpu s) \<and> he_wait env2 s = Shut_down h"
  then show "he_loop env2 s v = Halt h" by (simp add: he_loop_wait)
  from a show "x86_handle_events env2 s = Halts h [Apic_clear, Vcpu_exit]"
    by (simp add: x86_handle_events_def he_loop_wait)
next
  assume a: "x86_handle_events env2 s = Halts h cs2"
  then have "he_loop env2 s (-1) = Halt h" and c: "cs2 = [Apic_clear, Vcpu_exit]"
    by (auto simp: x86_handle_events_def split: pass.splits prod.splits)
  then show "shutdown_cpu h" by (auto dest: he_loop_Halt)
  show "cs2 = [Apic_clear, Vcpu_exit]" by (rule c)
  from a show "\<forall>r d' cs' e'. x86_handle_events env2 s \<noteq> Returns r d' cs' e'" by simp
qed

text \<open>
  The witness: a running core is shut down. It publishes \<open>cpu_suspended\<close> while the
  caller waits; between the two last writes an observer copies what it finds into
  \<open>flush_vcpu_caches\<close>, and finds \<open>shutdown_cpu\<close> and \<open>suspend_cpu\<close> both set. The target,
  waiting, meets the two writes and halts in the same block.
\<close>

theorem shutdown_cpu_halts_target_witness:
  "\<not> cpu_suspended idle \<and>
   arch_suspend_cpu [\<lambda>d. d\<lparr>cpu_suspended := True\<rparr>,
                     \<lambda>d. d\<lparr>flush_vcpu_caches := shutdown_cpu d \<and> suspend_cpu d\<rparr>] idle =
     ([Apic_send_nmi_ipi],
      Some (idle\<lparr>suspend_cpu := True, cpu_suspended := True\<rparr>,
            [\<lambda>d. d\<lparr>flush_vcpu_caches := shutdown_cpu d \<and> suspend_cpu d\<rparr>])) \<and>
   cpu_suspended (idle\<lparr>suspend_cpu := True, cpu_suspended := True\<rparr>) \<and>
   arch_shutdown_cpu [\<lambda>d. d\<lparr>cpu_suspended := True\<rparr>,
                      \<lambda>d. d\<lparr>flush_vcpu_caches := shutdown_cpu d \<and> suspend_cpu d\<rparr>] idle =
     ([Apic_send_nmi_ipi],
      Some (idle\<lparr>cpu_suspended := True, shutdown_cpu := True, flush_vcpu_caches := True\<rparr>, [])) \<and>
   arch_shutdown_cpu [] idle = ([Apic_send_nmi_ipi], None) \<and>
   suspend_cpu (idle\<lparr>suspend_cpu := True\<rparr>) \<and>
   \<not> (init_signaled (idle\<lparr>suspend_cpu := True\<rparr>) \<and> \<not> suspend_cpu (idle\<lparr>suspend_cpu := True\<rparr>)) \<and>
   he_wait [\<lambda>d. d\<lparr>shutdown_cpu := True\<rparr>, \<lambda>d. d\<lparr>suspend_cpu := False\<rparr>]
       (idle\<lparr>suspend_cpu := True\<rparr>) =
     Shut_down (idle\<lparr>cpu_suspended := True, shutdown_cpu := True\<rparr>) \<and>
   x86_handle_events [\<lambda>d. d\<lparr>shutdown_cpu := True\<rparr>, \<lambda>d. d\<lparr>suspend_cpu := False\<rparr>]
       (idle\<lparr>suspend_cpu := True\<rparr>) =
     Halts (idle\<lparr>cpu_suspended := True, shutdown_cpu := True\<rparr>) [Apic_clear, Vcpu_exit] \<and>
   shutdown_cpu (idle\<lparr>cpu_suspended := True, shutdown_cpu := True\<rparr>)"
  using shutdown_cpu_halts_target
    [where env = "[\<lambda>d. d\<lparr>cpu_suspended := True\<rparr>,
                   \<lambda>d. d\<lparr>flush_vcpu_caches := shutdown_cpu d \<and> suspend_cpu d\<rparr>]"
       and t = idle and cs = "[Apic_send_nmi_ipi]"
       and ?d1.0 = "idle\<lparr>suspend_cpu := True, cpu_suspended := True\<rparr>"
       and ?env1.0 = "[\<lambda>d. d\<lparr>flush_vcpu_caches := shutdown_cpu d \<and> suspend_cpu d\<rparr>]"
       and s = "idle\<lparr>suspend_cpu := True\<rparr>"
       and ?env2.0 = "[\<lambda>d. d\<lparr>shutdown_cpu := True\<rparr>, \<lambda>d. d\<lparr>suspend_cpu := False\<rparr>]"
       and h = "idle\<lparr>cpu_suspended := True, shutdown_cpu := True\<rparr>" and v = "-1"
       and ?cs2.0 = "[Apic_clear, Vcpu_exit]"]
    shutdown_cpu_halts_target
    [where env = "[]" and t = idle and cs = "[Apic_send_nmi_ipi]"
       and ?d1.0 = idle and ?env1.0 = "[]" and s = "idle\<lparr>suspend_cpu := True\<rparr>"
       and ?env2.0 = "[]" and h = idle and v = "-1" and ?cs2.0 = "[]"]
  by (simp add: idle_def he_wait_def arch_suspend_cpu_def suspend_request_def)

text \<open>
  The order of the two writes decides what the target does: were \<open>suspend_cpu\<close> cleared
  first, a target that reads \<open>shutdown_cpu\<close> before it is set would return from
  \<open>x86_handle_events\<close> and run on.
\<close>

lemma resume_before_shutdown_flag_returns:
  "x86_handle_events [\<lambda>d. d\<lparr>suspend_cpu := False\<rparr>, \<lambda>d. d, \<lambda>d. d\<lparr>shutdown_cpu := True\<rparr>]
       (idle\<lparr>suspend_cpu := True\<rparr>) =
     Returns (-1) (idle\<lparr>shutdown_cpu := True\<rparr>) [] []"
  by (simp add: idle_def x86_handle_events_def he_loop_wait he_wait_def he_wakeup_def
      he_exit_def)

section \<open>Mapping and unmapping a memory region\<close>

text \<open>
  C3. \<open>arch_map_memory_region\<close> calls \<open>vcpu_map_memory_region\<close>; if that succeeds it calls
  \<open>iommu_map_memory_region\<close>, and if that fails it calls \<open>vcpu_unmap_memory_region\<close> and
  returns the error of the IOMMU. \<open>arch_unmap_memory_region\<close> calls
  \<open>iommu_unmap_memory_region\<close> first; if that fails it returns the error and has made no
  other call, and otherwise it calls \<open>vcpu_unmap_memory_region\<close> and returns its result.
\<close>

theorem map_unmap_memory_region_order:
  "arch_map_memory_region orc c mem m =
     (let r1 = orc (calls m) (Vcpu_map_memory_region c mem);
          l1 = calls m @ [(Vcpu_map_memory_region c mem, r1)];
          r2 = orc l1 (Iommu_map_memory_region c mem);
          l2 = l1 @ [(Iommu_map_memory_region c mem, r2)];
          r3 = orc l2 (Vcpu_unmap_memory_region c mem)
      in if r1 \<noteq> 0 then (r1, m\<lparr>calls := l1\<rparr>)
         else if r2 \<noteq> 0 then (r2, m\<lparr>calls := l2 @ [(Vcpu_unmap_memory_region c mem, r3)]\<rparr>)
         else (0, m\<lparr>calls := l2\<rparr>)) \<and>
   arch_unmap_memory_region orc c mem m =
     (let r1 = orc (calls m) (Iommu_unmap_memory_region c mem);
          l1 = calls m @ [(Iommu_unmap_memory_region c mem, r1)];
          r2 = orc l1 (Vcpu_unmap_memory_region c mem)
      in if r1 \<noteq> 0 then (r1, m\<lparr>calls := l1\<rparr>)
         else (r2, m\<lparr>calls := l1 @ [(Vcpu_unmap_memory_region c mem, r2)]\<rparr>))"
  by (simp add: arch_map_memory_region_def arch_unmap_memory_region_def invoke_def Let_def)

theorem map_unmap_memory_region_order_witness:
  "arch_map_memory_region iommu_refuses 1 7 example_machine =
     (-12, example_machine\<lparr>calls := [(Vcpu_map_memory_region 1 7, 0),
                                     (Iommu_map_memory_region 1 7, -12),
                                     (Vcpu_unmap_memory_region 1 7, 0)]\<rparr>) \<and>
   arch_unmap_memory_region iommu_refuses 1 7 example_machine =
     (-12, example_machine\<lparr>calls := [(Iommu_unmap_memory_region 1 7, -12)]\<rparr>) \<and>
   arch_map_memory_region all_succeed 1 7 example_machine =
     (0, example_machine\<lparr>calls := [(Vcpu_map_memory_region 1 7, 0),
                                   (Iommu_map_memory_region 1 7, 0)]\<rparr>) \<and>
   arch_unmap_memory_region all_succeed 1 7 example_machine =
     (0, example_machine\<lparr>calls := [(Iommu_unmap_memory_region 1 7, 0),
                                   (Vcpu_unmap_memory_region 1 7, 0)]\<rparr>)"
  using map_unmap_memory_region_order [of iommu_refuses 1 7 example_machine]
    map_unmap_memory_region_order [of all_succeed 1 7 example_machine]
  by (simp add: example_machine_def iommu_refuses_def all_succeed_def Let_def)

section \<open>Creating a cell\<close>

lemma init_exit_calls [simp]:
  "Vcpu_cell_init c = init_call sub c' \<longleftrightarrow> sub = VCPU \<and> c = c'"
  "Iommu_cell_init c = init_call sub c' \<longleftrightarrow> sub = IOMMU \<and> c = c'"
  "Pci_cell_init c = init_call sub c' \<longleftrightarrow> sub = PCI \<and> c = c'"
  "Ioapic_cell_init c = init_call sub c' \<longleftrightarrow> sub = IOAPIC \<and> c = c'"
  "Vcpu_cell_exit c \<noteq> init_call sub c'"
  "Iommu_cell_exit c \<noteq> init_call sub c'"
  "Vcpu_cell_exit c = exit_call sub c' \<longleftrightarrow> sub = VCPU \<and> c = c'"
  "Iommu_cell_exit c = exit_call sub c' \<longleftrightarrow> sub = IOMMU \<and> c = c'"
  "Vcpu_cell_init c \<noteq> exit_call sub c'"
  "Iommu_cell_init c \<noteq> exit_call sub c'"
  "Pci_cell_init c \<noteq> exit_call sub c'"
  "Ioapic_cell_init c \<noteq> exit_call sub c'"
  by (cases sub; auto)+

lemma arch_cell_create_eq:
  "arch_cell_create orc c m =
     (let r1 = orc (calls m) (Vcpu_cell_init c);
          l1 = calls m @ [(Vcpu_cell_init c, r1)];
          r2 = orc l1 (Iommu_cell_init c);
          l2 = l1 @ [(Iommu_cell_init c, r2)];
          r3 = orc l2 (Pci_cell_init c);
          l3 = l2 @ [(Pci_cell_init c, r3)]
      in if r1 \<noteq> 0 then (r1, m\<lparr>calls := l1\<rparr>)
         else if r2 \<noteq> 0 then (r2, m\<lparr>calls := l2 @ [(Vcpu_cell_exit c, 0)]\<rparr>)
         else if r3 \<noteq> 0
              then (r3, m\<lparr>calls := l3 @ [(Iommu_cell_exit c, 0), (Vcpu_cell_exit c, 0)]\<rparr>)
         else (0, m\<lparr>cells := (cells m)
                       (c := (cells m c)\<lparr>comm_pm_timer_address := system_pm_timer_address m\<rparr>),
                    calls := l3 @ [(Ioapic_cell_init c, 0)]\<rparr>))"
  by (simp add: arch_cell_create_def invoke_def invoke_void_def error_vm_exit_def
      error_iommu_exit_def Let_def)

text \<open>
  C4. \<open>arch_cell_create\<close> calls \<open>vcpu_cell_init\<close>, \<open>iommu_cell_init\<close>, \<open>pci_cell_init\<close> and
  \<open>ioapic_cell_init\<close> in this order. When \<open>vcpu_cell_init\<close> fails it returns the error;
  when \<open>iommu_cell_init\<close> fails it calls \<open>vcpu_cell_exit\<close> and returns the error; when
  \<open>pci_cell_init\<close> fails it calls \<open>iommu_cell_exit\<close>, then \<open>vcpu_cell_exit\<close>, and returns the
  error. On success it copies the platform timer address into the communication page
  of the cell and returns \<open>0\<close>. A failed creation of a cell for which no subsystem held
  state leaves none holding state for it.
\<close>

theorem cell_create_unwinds:
  "arch_cell_create orc c m =
     (let r1 = orc (calls m) (Vcpu_cell_init c);
          l1 = calls m @ [(Vcpu_cell_init c, r1)];
          r2 = orc l1 (Iommu_cell_init c);
          l2 = l1 @ [(Iommu_cell_init c, r2)];
          r3 = orc l2 (Pci_cell_init c);
          l3 = l2 @ [(Pci_cell_init c, r3)]
      in if r1 \<noteq> 0 then (r1, m\<lparr>calls := l1\<rparr>)
         else if r2 \<noteq> 0 then (r2, m\<lparr>calls := l2 @ [(Vcpu_cell_exit c, 0)]\<rparr>)
         else if r3 \<noteq> 0
              then (r3, m\<lparr>calls := l3 @ [(Iommu_cell_exit c, 0), (Vcpu_cell_exit c, 0)]\<rparr>)
         else (0, m\<lparr>cells := (cells m)
                       (c := (cells m c)\<lparr>comm_pm_timer_address := system_pm_timer_address m\<rparr>),
                    calls := l3 @ [(Ioapic_cell_init c, 0)]\<rparr>)) \<and>
   (fst (arch_cell_create orc c m) \<noteq> 0 \<and> (\<forall>sub. \<not> holds_state sub c (calls m)) \<longrightarrow>
      (\<forall>sub. \<not> holds_state sub c (calls (snd (arch_cell_create orc c m)))))"
proof (intro conjI impI allI)
  show "arch_cell_create orc c m =
     (let r1 = orc (calls m) (Vcpu_cell_init c);
          l1 = calls m @ [(Vcpu_cell_init c, r1)];
          r2 = orc l1 (Iommu_cell_init c);
          l2 = l1 @ [(Iommu_cell_init c, r2)];
          r3 = orc l2 (Pci_cell_init c);
          l3 = l2 @ [(Pci_cell_init c, r3)]
      in if r1 \<noteq> 0 then (r1, m\<lparr>calls := l1\<rparr>)
         else if r2 \<noteq> 0 then (r2, m\<lparr>calls := l2 @ [(Vcpu_cell_exit c, 0)]\<rparr>)
         else if r3 \<noteq> 0
              then (r3, m\<lparr>calls := l3 @ [(Iommu_cell_exit c, 0), (Vcpu_cell_exit c, 0)]\<rparr>)
         else (0, m\<lparr>cells := (cells m)
                       (c := (cells m c)\<lparr>comm_pm_timer_address := system_pm_timer_address m\<rparr>),
                    calls := l3 @ [(Ioapic_cell_init c, 0)]\<rparr>))"
    by (rule arch_cell_create_eq)
next
  fix sub
  assume a: "fst (arch_cell_create orc c m) \<noteq> 0 \<and> (\<forall>sub. \<not> holds_state sub c (calls m))"
  then have n: "\<not> holds_state sub c (calls m)" by blast
  from a have f: "fst (arch_cell_create orc c m) \<noteq> 0" by blast
  from f n show "\<not> holds_state sub c (calls (snd (arch_cell_create orc c m)))"
    unfolding arch_cell_create_eq Let_def
    by (auto simp: holds_state_def split: if_splits)
qed

theorem cell_create_unwinds_witness:
  "arch_cell_create pci_refuses 1 example_machine =
     (-12, example_machine\<lparr>calls := [(Vcpu_cell_init 1, 0), (Iommu_cell_init 1, 0),
                                     (Pci_cell_init 1, -12), (Iommu_cell_exit 1, 0),
                                     (Vcpu_cell_exit 1, 0)]\<rparr>) \<and>
   (\<forall>sub. \<not> holds_state sub 1 (calls example_machine)) \<and>
   (\<forall>sub. \<not> holds_state sub 1 [(Vcpu_cell_init 1, 0), (Iommu_cell_init 1, 0),
                                 (Pci_cell_init 1, -12), (Iommu_cell_exit 1, 0),
                                 (Vcpu_cell_exit 1, 0)]) \<and>
   arch_cell_create iommu_refuses 1 example_machine =
     (-12, example_machine\<lparr>calls := [(Vcpu_cell_init 1, 0), (Iommu_cell_init 1, -12),
                                     (Vcpu_cell_exit 1, 0)]\<rparr>) \<and>
   fst (arch_cell_create all_succeed 1 example_machine) = 0 \<and>
   calls (snd (arch_cell_create all_succeed 1 example_machine)) =
     [(Vcpu_cell_init 1, 0), (Iommu_cell_init 1, 0), (Pci_cell_init 1, 0),
      (Ioapic_cell_init 1, 0)] \<and>
   comm_pm_timer_address (cells (snd (arch_cell_create all_succeed 1 example_machine)) 1) = 1032"
  using cell_create_unwinds [of pci_refuses 1 example_machine]
    cell_create_unwinds [of iommu_refuses 1 example_machine]
    cell_create_unwinds [of all_succeed 1 example_machine]
  by (auto simp: example_machine_def pci_refuses_def iommu_refuses_def all_succeed_def Let_def
      holds_state_def)

section \<open>Committing a configuration change\<close>

lemma fold_set_flush_vcpu_caches:
  "fold set_flush_vcpu_caches xs m =
     m\<lparr>cpus := (\<lambda>cpu. if cpu \<in> set xs then (cpus m cpu)\<lparr>flush_vcpu_caches := True\<rparr>
                     else cpus m cpu)\<rparr>"
proof (induction xs arbitrary: m)
  case Nil
  then show ?case by simp
next
  case (Cons x xs)
  have "fold set_flush_vcpu_caches (x # xs) m =
          fold set_flush_vcpu_caches xs (set_flush_vcpu_caches x m)"
    by simp
  also have "\<dots> = (set_flush_vcpu_caches x m)\<lparr>cpus := (\<lambda>cpu. if cpu \<in> set xs
        then (cpus (set_flush_vcpu_caches x m) cpu)\<lparr>flush_vcpu_caches := True\<rparr>
        else cpus (set_flush_vcpu_caches x m) cpu)\<rparr>"
    by (rule Cons.IH)
  also have "\<dots> = m\<lparr>cpus := (\<lambda>cpu. if cpu \<in> set (x # xs)
        then (cpus m cpu)\<lparr>flush_vcpu_caches := True\<rparr> else cpus m cpu)\<rparr>"
    by (simp add: set_flush_vcpu_caches_def fun_eq_iff)
  finally show ?case .
qed

text \<open>
  C6. \<open>arch_config_commit\<close> sets \<open>flush_vcpu_caches\<close> in the blocks of the cores of the
  root cell other than the caller and, when the cell given is neither null nor the root
  cell, of the cores of that cell other than the caller; it changes no other field and no
  other block, the block of the caller among them. Then it calls \<open>vcpu_tlb_flush\<close>,
  \<open>iommu_config_commit\<close>, \<open>pci_config_commit\<close> and \<open>ioapic_config_commit\<close>, in this order,
  the last three with the cell it was given.
\<close>

theorem config_commit_marks_and_notifies:
  "arch_config_commit C cur m =
     m\<lparr>cpus := (\<lambda>cpu. if cpu \<noteq> cur \<and>
                         (cpu \<in> set (cpu_set (cells m (root_cell m))) \<or>
                          (\<exists>c. C = Some c \<and> c \<noteq> root_cell m \<and> cpu \<in> set (cpu_set (cells m c))))
                     then (cpus m cpu)\<lparr>flush_vcpu_caches := True\<rparr> else cpus m cpu),
       calls := calls m @ [(Vcpu_tlb_flush, 0), (Iommu_config_commit C, 0),
                           (Pci_config_commit C, 0), (Ioapic_config_commit C, 0)]\<rparr> \<and>
   cpus (arch_config_commit C cur m) cur = cpus m cur"
  by (cases C)
     (auto simp: arch_config_commit_def fold_set_flush_vcpu_caches for_each_cpu_except_def
        invoke_void_def Let_def fun_eq_iff)

theorem config_commit_marks_and_notifies_witness:
  "map (\<lambda>cpu. flush_vcpu_caches (cpus (arch_config_commit (Some 1) 0 example_machine) cpu))
     [0, 1, 2, 3, 4] = [False, True, True, True, False] \<and>
   map (\<lambda>cpu. flush_vcpu_caches (cpus (arch_config_commit None 0 example_machine) cpu))
     [0, 1, 2, 3, 4] = [False, True, False, False, False] \<and>
   map (\<lambda>cpu. flush_vcpu_caches (cpus (arch_config_commit (Some 0) 1 example_machine) cpu))
     [0, 1, 2, 3, 4] = [True, False, False, False, False] \<and>
   calls (arch_config_commit (Some 1) 0 example_machine) =
     [(Vcpu_tlb_flush, 0), (Iommu_config_commit (Some 1), 0), (Pci_config_commit (Some 1), 0),
      (Ioapic_config_commit (Some 1), 0)]"
  using config_commit_marks_and_notifies [of "Some 1" 0 example_machine]
    config_commit_marks_and_notifies [of None 0 example_machine]
    config_commit_marks_and_notifies [of "Some 0" 1 example_machine]
  by (simp add: example_machine_def idle_def)

section \<open>Which startup vectors \<open>x86_handle_events\<close> returns\<close>

lemma remote_frame:
  "wait_for_sipi (remote bsp op d) = wait_for_sipi d" "failed (remote bsp op d) = failed d"
  by (cases op; simp add: suspend_request_def arch_resume_cpu_def arch_reset_cpu_def
      arch_park_cpu_def x86_send_init_sipi_def Let_def split: prod.splits)+

lemma remote_justified:
  "(op = Reset \<longrightarrow> r) \<Longrightarrow> justified r bsp d \<Longrightarrow> justified r bsp (remote bsp op d)"
  by (cases op; auto simp: justified_def suspend_request_def arch_resume_cpu_def
      arch_reset_cpu_def arch_park_cpu_def x86_send_init_sipi_def Let_def
      split: prod.splits if_splits)

lemma keeps_fold_remote:
  "(Reset \<in> set ops \<longrightarrow> r) \<Longrightarrow> keeps r bsp (fold (remote bsp) ops)"
proof (induction ops)
  case Nil
  then show ?case by (simp add: keeps_def)
next
  case (Cons op ops)
  then have k: "keeps r bsp (fold (remote bsp) ops)" by simp
  from Cons.prems have "op = Reset \<longrightarrow> r" by simp
  with k show ?case
    by (auto simp: keeps_def remote_frame remote_justified)
qed

lemma keeps_inv: "keeps r bsp e \<Longrightarrow> inv r bsp W F d \<Longrightarrow> inv r bsp W F (e d)"
  by (auto simp: keeps_def inv_def)

lemma spin_while_inv:
  "spin_while c env d = Some (d', env') \<Longrightarrow> \<forall>e\<in>set env. keeps r bsp e \<Longrightarrow>
     inv r bsp W F d \<Longrightarrow> inv r bsp W F d' \<and> set env' \<subseteq> set env"
proof (induction c env d rule: spin_while.induct)
  case (1 c t)
  then show ?case by (auto split: if_splits)
next
  case (2 c e es t)
  have i: "inv r bsp W F (e t)" using 2 by (auto intro: keeps_inv)
  show ?case
  proof (cases "c (e t)")
    case True
    with 2 i show ?thesis by (auto simp: Let_def)
  next
    case False
    with 2 i show ?thesis by (auto simp: Let_def)
  qed
qed

lemma interfere_inv:
  "interfere env d = (d', env') \<Longrightarrow> \<forall>e\<in>set env. keeps r bsp e \<Longrightarrow> inv r bsp W F d \<Longrightarrow>
     inv r bsp W F d' \<and> set env' \<subseteq> set env"
  by (cases env) (auto intro: keeps_inv)

lemma he_wait_inv:
  assumes "he_wait env d = Woken w env'" and "\<forall>e\<in>set env. keeps r bsp e"
      and "inv r bsp W F d"
  shows "inv r bsp W F w \<and> set env' \<subseteq> set env"
proof -
  from assms(1) obtain d1 env1 d2 env2 where
    sp: "spin_while suspend_cpu env (d\<lparr>cpu_suspended := True\<rparr>) = Some (d1, env1)" and
    i1: "interfere env1 d1 = (d2, env2)" and
    i2: "interfere env2 d2 = (w, env')"
    by (auto simp: he_wait_def split: option.splits prod.splits if_splits)
  have "inv r bsp W F (d\<lparr>cpu_suspended := True\<rparr>)"
    using assms(3) by (simp add: inv_def justified_def)
  from spin_while_inv[OF sp assms(2) this]
  have 1: "inv r bsp W F d1" "set env1 \<subseteq> set env" by auto
  then have "\<forall>e\<in>set env1. keeps r bsp e" using assms(2) by blast
  from interfere_inv[OF i1 this 1(1)]
  have 2: "inv r bsp W F d2" "set env2 \<subseteq> set env1" by auto
  then have "\<forall>e\<in>set env2. keeps r bsp e" using assms(2) 1(2) by blast
  from interfere_inv[OF i2 this 2(1)] 1(2) 2(2) show ?thesis by auto
qed

lemma he_wakeup_inv:
  "he_wakeup w v = (d', v') \<Longrightarrow> inv r bsp W F w \<Longrightarrow> local_ok r bsp W F v \<Longrightarrow>
     inv r bsp W F d' \<and> local_ok r bsp W F v'"
  by (auto simp: he_wakeup_def Let_def inv_def justified_def local_ok_def split: if_splits)

lemma he_loop_inv:
  "\<forall>e\<in>set env. keeps r bsp e \<Longrightarrow> inv r bsp W F s \<Longrightarrow> local_ok r bsp W F v \<Longrightarrow>
   (he_loop env s v = Break d x env' \<longrightarrow> x < 0 \<and> justified r bsp d \<and> failed d = F) \<and>
   (he_loop env s v = Next d x env' \<longrightarrow>
      local_ok r bsp W F x \<and> justified r bsp d \<and> failed d = F)"
proof (induction env s v rule: he_loop.induct)
  case (1 env s v)
  show ?case
  proof (cases "init_signaled s \<and> \<not> suspend_cpu s")
    case True
    with "1.prems" show ?thesis
      by (auto simp: he_loop_Break x86_enter_wait_for_sipi_def inv_def justified_def)
  next
    case False
    show ?thesis
    proof (cases "he_wait env s")
      case (Woken w env1)
      obtain d1 v1 where wk: "he_wakeup w v = (d1, v1)" by (cases "he_wakeup w v")
      have p: "he_pass env s v = Next d1 v1 env1"
        using False Woken wk by (simp add: he_pass_def)
      from he_wait_inv[OF Woken "1.prems"(1,2)]
      have w: "inv r bsp W F w" "set env1 \<subseteq> set env" by auto
      from he_wakeup_inv[OF wk w(1) "1.prems"(3)]
      have d1: "inv r bsp W F d1" "local_ok r bsp W F v1" by auto
      from w(2) "1.prems"(1) have e1: "\<forall>e\<in>set env1. keeps r bsp e" by blast
      show ?thesis
      proof (cases "init_signaled d1")
        case True
        have "he_loop env s v = he_loop env1 d1 v1"
          using False Woken wk True by (simp add: he_loop_wait)
        with "1.IH"[OF p True e1 d1] show ?thesis by simp
      next
        case F2: False
        have "he_loop env s v = Next d1 v1 env1"
          using False Woken wk F2 by (simp add: he_loop_wait)
        with d1 show ?thesis by (auto simp: inv_def)
      qed
    qed (use False in \<open>simp_all add: he_loop_wait\<close>)
  qed
qed

lemma handle_events_inv:
  assumes "\<forall>e\<in>set env. keeps r bsp e" and "justified r bsp s"
      and "x86_handle_events env s = Returns x d cs env'"
  shows "justified r bsp d \<and> failed d = failed s \<and>
         (0 \<le> x \<longrightarrow> \<not> failed s \<and> (wait_for_sipi s \<or> (r \<and> x = bsp)))"
proof -
  have i: "inv r bsp (wait_for_sipi s) (failed s) s" using assms(2) by (simp add: inv_def)
  have l: "local_ok r bsp (wait_for_sipi s) (failed s) (-1)" by (simp add: local_ok_def)
  from assms(3) obtain d0 v0 where
    h: "he_loop env s (-1) = Break d0 v0 env' \<or> he_loop env s (-1) = Next d0 v0 env'" and
    ex: "he_exit d0 v0 = (x, d, cs)"
    by (auto simp: x86_handle_events_def split: pass.splits prod.splits)
  from ex have e: "x = v0" "sipi_vector d = sipi_vector d0" "wait_for_sipi d = wait_for_sipi d0"
    "failed d = failed d0"
    by (auto simp: he_exit_def split: if_splits)
  from h he_loop_inv[OF assms(1) i l, of d0 v0 env']
  have "justified r bsp d0 \<and> failed d0 = failed s \<and>
        local_ok r bsp (wait_for_sipi s) (failed s) v0"
    by (auto simp: local_ok_def)
  with e show ?thesis by (auto simp: justified_def local_ok_def)
qed

lemma run_sound:
  "justified r bsp d0 \<Longrightarrow> (\<forall>ev\<in>set evs. resets ev \<longrightarrow> r) \<Longrightarrow>
     (pre, v) \<in> set (run bsp evs d0) \<Longrightarrow>
     failed pre = failed d0 \<and> (0 \<le> v \<longrightarrow> \<not> failed pre \<and> (wait_for_sipi pre \<or> (r \<and> v = bsp)))"
proof (induction bsp evs d0 rule: run.induct)
  case (1 bsp d)
  then show ?case by simp
next
  case (2 bsp op evs d)
  from "2.prems"(2) have "op = Reset \<longrightarrow> r" by simp
  from remote_justified[OF this "2.prems"(1)]
  have j: "justified r bsp (remote bsp op d)" .
  from "2.prems"(2) have a: "\<forall>ev\<in>set evs. resets ev \<longrightarrow> r" by simp
  from "2.prems"(3) have m: "(pre, v) \<in> set (run bsp evs (remote bsp op d))" by simp
  from "2.IH"[OF j a m] show ?case by (auto simp: remote_frame)
next
  case (3 bsp opss evs d)
  let ?env = "map (\<lambda>ops. fold (remote bsp) ops) opss"
  have k: "\<forall>e\<in>set ?env. keeps r bsp e"
    using "3.prems"(2) by (auto intro!: keeps_fold_remote)
  show ?case
  proof (cases "x86_handle_events ?env d")
    case (Returns x d' cs env')
    from handle_events_inv[OF k "3.prems"(1) Returns]
    have j: "justified r bsp d'" and f: "failed d' = failed d" and
      g: "0 \<le> x \<longrightarrow> \<not> failed d \<and> (wait_for_sipi d \<or> (r \<and> x = bsp))" by auto
    from "3.prems"(3) Returns have "(pre, v) = (d, x) \<or> (pre, v) \<in> set (run bsp evs d')"
      by simp
    then show ?thesis
    proof
      assume "(pre, v) = (d, x)"
      with g show ?thesis by simp
    next
      assume m: "(pre, v) \<in> set (run bsp evs d')"
      from "3.prems"(2) have a: "\<forall>ev\<in>set evs. resets ev \<longrightarrow> r" by simp
      from "3.IH"[OF Returns j a m] f show ?thesis by auto
    qed
  qed (use "3.prems" in simp_all)
qed

text \<open>
  C2, as the code has it. Take any history of remote operations and calls of
  \<open>x86_handle_events\<close> that starts with no vector pending. \<open>failed\<close> has the same value
  throughout. A call returns a startup vector only if \<open>failed\<close> is clear, and only if
  \<open>wait_for_sipi\<close> was set when the call began or the vector is the boot pseudo-vector
  and the history contains a reset: \<open>arch_reset_cpu\<close> stores that vector whether or not
  \<open>wait_for_sipi\<close> is set.
\<close>

theorem returned_vector_origin:
  assumes "sipi_vector d0 < 0" and "(pre, v) \<in> set (run bsp evs d0)" and "0 \<le> v"
  shows "failed pre = failed d0 \<and> \<not> failed pre \<and>
         (wait_for_sipi pre \<or> (v = bsp \<and> (\<exists>ev\<in>set evs. resets ev)))"
  using run_sound[of "\<exists>ev\<in>set evs. resets ev" bsp d0 evs pre v] assms
  by (auto simp: justified_def)

theorem returned_vector_origin_witness:
  "sipi_vector idle < 0 \<and>
   run 256 [Remote (Send_init_sipi X86_INIT 0), Handle_events [],
            Remote Suspend, Handle_events [[Send_init_sipi X86_SIPI 7], [Resume]]] idle =
     [(idle\<lparr>init_signaled := True\<rparr>, -1),
      (idle\<lparr>suspend_cpu := True, wait_for_sipi := True\<rparr>, 7)] \<and>
   (0::int) \<le> 7 \<and>
   \<not> failed (idle\<lparr>suspend_cpu := True, wait_for_sipi := True\<rparr>) \<and>
   wait_for_sipi (idle\<lparr>suspend_cpu := True, wait_for_sipi := True\<rparr>)"
  using returned_vector_origin
    [of idle "idle\<lparr>suspend_cpu := True, wait_for_sipi := True\<rparr>" 7 256
       "[Remote (Send_init_sipi X86_INIT 0), Handle_events [],
         Remote Suspend, Handle_events [[Send_init_sipi X86_SIPI 7], [Resume]]]"]
  by (simp add: idle_def x86_handle_events_def he_loop_Break he_loop_wait he_wait_def
      he_wakeup_def he_exit_def x86_enter_wait_for_sipi_def x86_send_init_sipi_def
      suspend_request_def arch_resume_cpu_def)

text \<open>
  The claim C2 as stated fails: after a reset of a core that never was in
  \<open>wait_for_sipi\<close>, the next call returns the boot pseudo-vector (\<open>0x100\<close> in
  \<open>asm/apic.h\<close>; any value from \<open>0\<close> on behaves alike).
\<close>

theorem reset_vector_returned_without_wait_for_sipi:
  "run 256 [Remote Reset, Handle_events []] idle = [(idle\<lparr>sipi_vector := 256\<rparr>, 256)] \<and>
   \<not> wait_for_sipi idle \<and>
   remote 256 Reset idle = idle\<lparr>sipi_vector := 256\<rparr> \<and>
   \<not> wait_for_sipi (idle\<lparr>sipi_vector := 256\<rparr>) \<and>
   x86_handle_events [] (idle\<lparr>sipi_vector := 256\<rparr>) = Returns 256 idle [Apic_clear] []"
  by (simp add: idle_def x86_handle_events_def he_loop_wait he_wait_def he_wakeup_def
      he_exit_def arch_reset_cpu_def arch_resume_cpu_def)

end
